theory Spec2Isabelle
  imports Complex_Main "HOL-Library.Log_Nat"
begin

section \<open>MIDI to Scratch converter: the conversion core of midi\_to\_scratch\_gui.py\<close>

text \<open>
  The development embeds the three functions of the conversion core,
  \<open>gm_to_scratch_instrument\<close>, \<open>round_to_musical_beat\<close> and \<open>midi_to_scratch\<close>.

  Numbers. Python's unbounded integers are \<open>int\<close>. A Python float is represented by the
  real number it stands for: a literal by its decimal, a true division of two integers by
  the exact quotient. The comparisons of the program come out the same on these as on the
  doubles. Where the program rounds a float, \<open>round(x, 2)\<close>, the binary value of the
  double decides, and the model rounds the double nearest to the quotient (\<open>to_double\<close>).
  A value that the program may hold either as an \<open>int\<close> or as a \<open>float\<close> (the result of
  \<open>round_to_musical_beat\<close>, which returns \<open>1\<close> but \<open>1.5\<close>) is a \<open>pynum\<close>, so that the
  printed text can tell \<open>1\<close> from \<open>1.0\<close>.
\<close>

subsection \<open>Python values\<close>

datatype pynum = PyInt int | PyFloat real

fun num_value :: "pynum \<Rightarrow> real" where
  "num_value (PyInt i) = of_int i"
| "num_value (PyFloat x) = x"

text \<open>
  Rounding a real number to the nearest integer, a tie going to the even one.
\<close>

definition round_half_even :: "real \<Rightarrow> int" where
  "round_half_even x =
     (let f = \<lfloor>x\<rfloor>; r = x - of_int f
      in if r < 1 / 2 then f
         else if 1 / 2 < r then f + 1
         else if even f then f else f + 1)"

text \<open>
  The double nearest to a real number: with \<open>e\<close> the exponent of the number, so that it
  lies from \<open>2 ^ e\<close> up to \<open>2 ^ (e + 1)\<close>, it is the nearest multiple of \<open>2 ^ (e - 52)\<close>,
  a tie going to the even multiple. This is what the true division of two integers returns
  for their quotient. The exponent range of a double is not modelled: the quotients of the
  program are far inside it.
\<close>

definition floor_log2 :: "real \<Rightarrow> int" where
  "floor_log2 a = (if 1 \<le> a then bitlen \<lfloor>a\<rfloor> - 1 else - bitlen (\<lceil>1 / a\<rceil> - 1))"

definition to_double :: "real \<Rightarrow> real" where
  "to_double x =
     (if x = 0 then 0
      else
        let ulp = 2 powi (floor_log2 \<bar>x\<bar> - 52)
        in sgn x * of_int (round_half_even (\<bar>x\<bar> / ulp)) * ulp)"

text \<open>
  \<open>round(x, 2)\<close> for the float \<open>x\<close> of a quotient: the value of the double is rounded to
  the nearest multiple of \<open>0.01\<close>, a tie going to the even multiple, and the result stands
  for that decimal.
\<close>

definition py_round2 :: "real \<Rightarrow> real" where
  "py_round2 x = of_int (round_half_even (to_double x * 100)) / 100"

subsection \<open>Instrument mapper\<close>

text \<open>
  The dictionary \<open>instrument_map\<close> has \<open>range(a, b)\<close> objects as keys; it is only ever
  iterated, in insertion order, so it is the list of its items. A range is the pair of
  its bounds, and \<open>p in range(a, b)\<close> for an integer \<open>p\<close> is \<open>a \<le> p \<and> p < b\<close>.
\<close>

definition instrument_map :: "((int \<times> int) \<times> int) list" where
  "instrument_map =
     [((0, 2), 1),     ((2, 8), 2),     ((8, 9), 16),
      ((9, 11), 17),   ((11, 16), 19),  ((16, 24), 3),
      ((24, 28), 4),   ((28, 32), 5),   ((32, 40), 6),
      ((40, 44), 8),   ((44, 48), 7),   ((48, 52), 8),
      ((52, 56), 15),  ((56, 64), 9),   ((64, 68), 11),
      ((68, 72), 10),  ((72, 74), 12),  ((74, 80), 13),
      ((80, 88), 20),  ((88, 96), 21),  ((96, 104), 21),
      ((104, 108), 13), ((108, 112), 4), ((112, 116), 18),
      ((116, 120), 19), ((120, 128), 21)]"

definition in_range :: "int \<Rightarrow> int \<times> int \<Rightarrow> bool" where
  "in_range p r = (fst r \<le> p \<and> p < snd r)"

text \<open>The \<open>for\<close> loop with its early \<open>return\<close>; \<open>None\<close> when the loop runs to its end.\<close>

fun find_instrument :: "int \<Rightarrow> ((int \<times> int) \<times> int) list \<Rightarrow> int option" where
  "find_instrument p [] = None"
| "find_instrument p ((program_range, scratch_inst) # rest) =
     (if in_range p program_range then Some scratch_inst else find_instrument p rest)"

definition gm_to_scratch_instrument :: "int \<Rightarrow> int" where
  "gm_to_scratch_instrument gm_program =
     (case find_instrument gm_program instrument_map of
        Some scratch_inst \<Rightarrow> scratch_inst
      | None \<Rightarrow> 1)"

subsection \<open>Beat quantizer\<close>

definition round_to_musical_beat :: "real \<Rightarrow> pynum" where
  "round_to_musical_beat beat_value =
     (if beat_value < 0.027 then PyFloat 0.03125
      else if beat_value < 0.035 then PyFloat 0.04
      else if beat_value < 0.045 then PyFloat 0.05
      else if beat_value < 0.0615 then PyFloat 0.0625
      else if beat_value < 0.0825 then PyFloat 0.0833
      else if beat_value < 0.05 then PyFloat 0.1
      else if beat_value < 0.1 then PyFloat 0.125
      else if beat_value < 0.15 then PyFloat 0.166
      else if beat_value < 0.2 then PyFloat 0.25
      else if beat_value < 0.3 then PyFloat 0.33
      else if beat_value < 0.4 then PyFloat 0.5
      else if beat_value < 0.6 then PyFloat 0.75
      else if beat_value < 0.8 then PyInt 1
      else if beat_value < 1.3 then PyFloat 1.5
      else if beat_value < 2.5 then PyInt 2
      else if beat_value < 3.5 then PyInt 3
      else if beat_value < 4.5 then PyInt 4
      else if beat_value < 6.5 then PyInt 6
      else if beat_value < 7.5 then PyInt 7
      else if beat_value < 8.5 then PyInt 8
      else if beat_value < 10.5 then PyInt 10
      else if beat_value < 11.5 then PyInt 11
      else if beat_value < 12.5 then PyInt 12
      else if beat_value < 14.5 then PyInt 14
      else if beat_value < 15.5 then PyInt 15
      else if beat_value < 16.5 then PyInt 16
      else PyFloat (py_round2 beat_value))"

subsection \<open>The parsed MIDI file\<close>

text \<open>
  What the MIDI reader hands over: the resolution of the file and, per track, the messages
  in order. Every message has a delta time \<open>time\<close>; the converter looks at four message
  types and skips all others.
\<close>

datatype msg =
    NoteOnMsg (msg_time: int) (msg_note: int) (msg_velocity: int) (msg_channel: int)
  | NoteOffMsg (msg_time: int) (msg_note: int) (msg_velocity: int) (msg_channel: int)
  | ProgramChangeMsg (msg_time: int) (msg_program: int) (msg_channel: int)
  | SetTempoMsg (msg_time: int) (msg_tempo: int)
  | OtherMsg (msg_time: int)

record midi_file =
  ticks_per_beat :: int
  tracks :: "msg list list"

subsection \<open>Event extraction\<close>

text \<open>
  An entry of \<open>events\<close> is the tuple \<open>(absolute_time, event_type, data)\<close>; the constructor
  of \<open>event_data\<close> is the event type and its arguments are the fields of the dictionary.
\<close>

datatype event_data =
    NoteOnData (ev_note: int) (ev_velocity: int) (ev_channel: int) (ev_program: int)
  | NoteOffData (ev_note: int) (ev_channel: int)

type_synonym event = "int \<times> event_data"

fun is_note_on :: "event_data \<Rightarrow> bool" where
  "is_note_on (NoteOnData _ _ _ _) = True"
| "is_note_on (NoteOffData _ _) = False"

text \<open>
  A dictionary whose iteration order is observed is the list of its items: storing under
  a key that is present replaces the value in place, a new key goes to the end.
\<close>

fun dict_set :: "'k \<Rightarrow> 'v \<Rightarrow> ('k \<times> 'v) list \<Rightarrow> ('k \<times> 'v) list" where
  "dict_set k v [] = [(k, v)]"
| "dict_set k v ((k', v') # kvs) =
     (if k' = k then (k, v) # kvs else (k', v') # dict_set k v kvs)"

fun dict_get :: "('k \<times> 'v) list \<Rightarrow> 'k \<Rightarrow> 'v \<Rightarrow> 'v" where
  "dict_get [] k d = d"
| "dict_get ((k', v') # kvs) k d = (if k' = k then v' else dict_get kvs k d)"

record extract_state =
  events :: "event list"
  current_tempo :: int
  tempo_changes :: "(int \<times> int) list"

text \<open>
  One turn of the loop over the messages of a track. The track's own variables
  \<open>absolute_time\<close> and \<open>current_program\<close> come first, the variables shared by all tracks
  after them.
\<close>

fun process_msg :: "int \<times> int \<times> extract_state \<Rightarrow> msg \<Rightarrow> int \<times> int \<times> extract_state" where
  "process_msg (absolute_time0, current_program, s) m =
     (let absolute_time = absolute_time0 + msg_time m in
      case m of
        NoteOnMsg _ note velocity channel \<Rightarrow>
          if velocity > 0 then
            (absolute_time, current_program,
             s\<lparr>events := events s @
                  [(absolute_time, NoteOnData note velocity channel current_program)]\<rparr>)
          else if velocity = 0 then
            (absolute_time, current_program,
             s\<lparr>events := events s @ [(absolute_time, NoteOffData note channel)]\<rparr>)
          else (absolute_time, current_program, s)
      | NoteOffMsg _ note _ channel \<Rightarrow>
          (absolute_time, current_program,
           s\<lparr>events := events s @ [(absolute_time, NoteOffData note channel)]\<rparr>)
      | ProgramChangeMsg _ program _ \<Rightarrow> (absolute_time, program, s)
      | SetTempoMsg _ tempo \<Rightarrow>
          (absolute_time, current_program,
           s\<lparr>current_tempo := tempo,
             tempo_changes := dict_set absolute_time tempo (tempo_changes s)\<rparr>)
      | OtherMsg _ \<Rightarrow> (absolute_time, current_program, s))"

definition process_track :: "extract_state \<Rightarrow> msg list \<Rightarrow> extract_state" where
  "process_track s track = snd (snd (foldl process_msg (0, 0, s) track))"

definition extract_events :: "midi_file \<Rightarrow> extract_state" where
  "extract_events mid =
     foldl process_track
       \<lparr>events = [], current_tempo = 500000, tempo_changes = [(0, 500000)]\<rparr>
       (tracks mid)"

text \<open>\<open>events.sort(key=lambda x: x[0])\<close>: a stable sort on the time.\<close>

definition sorted_events :: "midi_file \<Rightarrow> event list" where
  "sorted_events mid = sort_key fst (events (extract_events mid))"

fun first_instrument :: "event list \<Rightarrow> int" where
  "first_instrument [] = 1"
| "first_instrument ((time, NoteOnData note velocity channel program) # rest) =
     gm_to_scratch_instrument program"
| "first_instrument ((time, NoteOffData note channel) # rest) = first_instrument rest"

text \<open>
  The index of note ends, keyed by \<open>(channel, note)\<close>. The function builds it and never
  reads it.
\<close>

fun note_end_times :: "event list \<Rightarrow> ((int \<times> int) \<times> int) list \<Rightarrow> ((int \<times> int) \<times> int) list" where
  "note_end_times [] d = d"
| "note_end_times ((time, NoteOffData note channel) # rest) d =
     note_end_times rest (dict_set (channel, note) time d)"
| "note_end_times ((time, NoteOnData note velocity channel program) # rest) d =
     note_end_times rest d"

subsection \<open>Chord grouping\<close>

datatype grouped_data =
    Chord (notes_of: "int list") (program_of: int)
  | Tempo (tempo_of: int)

type_synonym grouped_event = "int \<times> grouped_data"

fun is_chord :: "grouped_data \<Rightarrow> bool" where
  "is_chord (Chord _ _) = True"
| "is_chord (Tempo _) = False"

definition tolerance :: "int \<Rightarrow> real" where
  "tolerance tpb = of_int tpb / 32"

text \<open>
  The inner loop over all events, for the anchor at \<open>time\<close>: it appends to \<open>chord_notes\<close>
  and adds to the set \<open>processed_times\<close>.
\<close>

fun scan_chord :: "real \<Rightarrow> int \<Rightarrow> event list \<Rightarrow> int list \<times> int set \<Rightarrow> int list \<times> int set" where
  "scan_chord tol time [] acc = acc"
| "scan_chord tol time ((other_time, other_data) # rest) (chord_notes, processed_times) =
     (if is_note_on other_data \<and> \<bar>of_int (other_time - time)\<bar> \<le> tol
      then scan_chord tol time rest
             (chord_notes @ [ev_note other_data], insert other_time processed_times)
      else scan_chord tol time rest (chord_notes, processed_times))"

text \<open>
  The outer loop. The second argument is the whole list \<open>events\<close> (scanned for every
  anchor), the third what is left of the enumeration. The progress callback, called every
  100 events, only reports to the caller and is left out.
\<close>

fun group_loop ::
  "real \<Rightarrow> event list \<Rightarrow> event list \<Rightarrow> grouped_event list \<times> int set \<Rightarrow> grouped_event list \<times> int set"
where
  "group_loop tol all_events [] acc = acc"
| "group_loop tol all_events ((time, data) # rest) (grouped_events, processed_times) =
     (case data of
        NoteOffData _ _ \<Rightarrow> group_loop tol all_events rest (grouped_events, processed_times)
      | NoteOnData note velocity channel program \<Rightarrow>
          if time \<in> processed_times
          then group_loop tol all_events rest (grouped_events, processed_times)
          else
            (case scan_chord tol time all_events ([], processed_times) of
               (chord_notes, processed_times') \<Rightarrow>
                 group_loop tol all_events rest
                   (grouped_events @ [(time, Chord chord_notes program)], processed_times')))"

definition group_chords :: "int \<Rightarrow> event list \<Rightarrow> grouped_event list" where
  "group_chords tpb evs = fst (group_loop (tolerance tpb) evs evs ([], {}))"

definition tempo_events :: "(int \<times> int) list \<Rightarrow> grouped_event list" where
  "tempo_events tc = map (\<lambda>(time, tempo). (time, Tempo tempo)) (filter (\<lambda>(time, tempo). time > 0) tc)"

definition chord_events :: "midi_file \<Rightarrow> grouped_event list" where
  "chord_events mid = group_chords (ticks_per_beat mid) (sorted_events mid)"

text \<open>The chords, then the tempo changes after time 0, then \<open>grouped_events.sort\<close>.\<close>

definition merged_events :: "midi_file \<Rightarrow> grouped_event list" where
  "merged_events mid =
     sort_key fst (chord_events mid @ tempo_events (tempo_changes (extract_events mid)))"

subsection \<open>Timeline serializer\<close>

text \<open>
  An output line before it is formatted: the tag and the value that the f-string prints.
\<close>

datatype line = Instr int | BPM real | Rest pynum | Note "int list"

text \<open>An exception that \<open>midi_to_scratch\<close> does not catch leaves it as an error value.\<close>

datatype py_error = ZeroDivisionError

record ser_state =
  previous_time :: int
  current_bpm :: real
  last_instrument :: int

text \<open>
  One turn of the loop over \<open>grouped_events\<close>. \<open>output_lines\<close> is only ever appended
  to, so a turn returns the lines it appends, together with the new values of the three
  variables. The two true divisions raise on a zero divisor.
\<close>

fun serialize_event :: "int \<Rightarrow> ser_state \<Rightarrow> grouped_event \<Rightarrow> py_error + ser_state \<times> line list" where
  "serialize_event tpb st (time_point, Tempo new_tempo) =
     (if new_tempo = 0 then Inl ZeroDivisionError
      else
        let new_bpm = 60000000 / of_int new_tempo in
        if new_bpm \<noteq> current_bpm st
        then Inr (st\<lparr>current_bpm := new_bpm\<rparr>, [BPM new_bpm])
        else Inr (st, []))"
| "serialize_event tpb st (time_point, Chord notes_at_time program) =
     (let instrument_at_time = gm_to_scratch_instrument program;
          instr_lines =
            (if instrument_at_time \<noteq> last_instrument st then [Instr instrument_at_time] else []);
          st' = st\<lparr>last_instrument := instrument_at_time, previous_time := time_point\<rparr>
      in
        if time_point > previous_time st then
          if tpb = 0 then Inl ZeroDivisionError
          else
            let rest_beats = of_int (time_point - previous_time st) / of_int tpb in
            if rest_beats \<ge> 0.03125
            then Inr (st', instr_lines @ [Rest (round_to_musical_beat rest_beats)]
                             @ [Note (sort notes_at_time)])
            else Inr (st', instr_lines @ [Note (sort notes_at_time)])
        else Inr (st', instr_lines @ [Note (sort notes_at_time)]))"

fun serialize_loop :: "int \<Rightarrow> ser_state \<Rightarrow> grouped_event list \<Rightarrow> py_error + ser_state \<times> line list" where
  "serialize_loop tpb st [] = Inr (st, [])"
| "serialize_loop tpb st (e # es) =
     (case serialize_event tpb st e of
        Inl err \<Rightarrow> Inl err
      | Inr (st', ls) \<Rightarrow>
          (case serialize_loop tpb st' es of
             Inl err \<Rightarrow> Inl err
           | Inr (st'', ls') \<Rightarrow> Inr (st'', ls @ ls')))"

text \<open>
  The same loop, every line paired with the \<open>time_point\<close> of the event whose turn appended
  it. The times are not part of the output; they name the event a line comes from.
\<close>

fun serialize_loop_timed ::
  "int \<Rightarrow> ser_state \<Rightarrow> grouped_event list \<Rightarrow> py_error + ser_state \<times> (int \<times> line) list"
where
  "serialize_loop_timed tpb st [] = Inr (st, [])"
| "serialize_loop_timed tpb st (e # es) =
     (case serialize_event tpb st e of
        Inl err \<Rightarrow> Inl err
      | Inr (st', ls) \<Rightarrow>
          (case serialize_loop_timed tpb st' es of
             Inl err \<Rightarrow> Inl err
           | Inr (st'', ls') \<Rightarrow> Inr (st'', map (Pair (fst e)) ls @ ls')))"

subsection \<open>The conversion entry point\<close>

datatype message =
    ErrorReading string
  | NoNoteEvents
  | Converted string nat
  | ErrorWriting string

record conversion =
  success :: bool
  message :: message
  written :: "line list option"

definition initial_state :: "midi_file \<Rightarrow> ser_state" where
  "initial_state mid =
     \<lparr>previous_time = 0,
      current_bpm = 60000000 / of_int (dict_get (tempo_changes (extract_events mid)) 0 500000),
      last_instrument = first_instrument (sorted_events mid)\<rparr>"

text \<open>
  Everything between the check for an empty event list and the writing of the file: the
  two initial lines, then the lines of the serializer.
\<close>

definition score_lines :: "midi_file \<Rightarrow> py_error + line list" where
  "score_lines mid =
     (if dict_get (tempo_changes (extract_events mid)) 0 500000 = 0 then Inl ZeroDivisionError
      else
        case serialize_loop (ticks_per_beat mid) (initial_state mid) (merged_events mid) of
          Inl err \<Rightarrow> Inl err
        | Inr (st, ls) \<Rightarrow>
            Inr ([Instr (last_instrument (initial_state mid)),
                  BPM (current_bpm (initial_state mid))] @ ls))"

definition score_lines_timed :: "midi_file \<Rightarrow> py_error + (int \<times> line) list" where
  "score_lines_timed mid =
     (if dict_get (tempo_changes (extract_events mid)) 0 500000 = 0 then Inl ZeroDivisionError
      else
        case serialize_loop_timed (ticks_per_beat mid) (initial_state mid) (merged_events mid) of
          Inl err \<Rightarrow> Inl err
        | Inr (st, ls) \<Rightarrow> Inr ls)"

text \<open>
  \<open>midi_to_scratch\<close>. Its first argument is what \<open>mido.MidiFile(midi_file)\<close> does: it
  raises (\<open>Inl\<close>, with the text of the exception) or returns the parsed file. The third
  says whether opening and writing the output file raises. The result is the returned pair
  and, in \<open>written\<close>, the lines written to the file, if it was written.
\<close>

definition midi_to_scratch :: "string + midi_file \<Rightarrow> string \<Rightarrow> string option \<Rightarrow> py_error + conversion" where
  "midi_to_scratch parsed output_file write_error =
     (case parsed of
        Inl e \<Rightarrow> Inr \<lparr>success = False, message = ErrorReading e, written = None\<rparr>
      | Inr mid \<Rightarrow>
          if sorted_events mid = []
          then Inr \<lparr>success = False, message = NoNoteEvents, written = None\<rparr>
          else
            (case score_lines mid of
               Inl err \<Rightarrow> Inl err
             | Inr output_lines \<Rightarrow>
                 (case write_error of
                    None \<Rightarrow>
                      Inr \<lparr>success = True,
                           message = Converted output_file (length output_lines),
                           written = Some output_lines\<rparr>
                  | Some e \<Rightarrow>
                      Inr \<lparr>success = False, message = ErrorWriting e, written = None\<rparr>)))"

subsection \<open>Formatting\<close>

text \<open>
  The text of a line, as the f-strings produce it. \<open>str\<close> of an integer is its decimal
  numeral. \<open>str\<close> of a float is the shortest decimal that reads back as the same double;
  the model gives it where the real number decides it, that is for a value with at most 15
  significant digits below \<open>10 ^ 15\<close> (printed in positional notation, with \<open>.0\<close> when it is
  whole), and \<open>None\<close> otherwise.
\<close>

definition digit_char :: "nat \<Rightarrow> char" where
  "digit_char d = ''0123456789'' ! d"

fun nat_digits :: "nat \<Rightarrow> nat \<Rightarrow> string" where
  "nat_digits 0 n = []"
| "nat_digits (Suc fuel) n =
     (if n < 10 then [digit_char n] else nat_digits fuel (n div 10) @ [digit_char (n mod 10)])"

text \<open>A number \<open>n\<close> has at most \<open>n + 1\<close> digits, so the fuel never runs out.\<close>

definition nat_str :: "nat \<Rightarrow> string" where
  "nat_str n = nat_digits (Suc n) n"

definition int_str :: "int \<Rightarrow> string" where
  "int_str i = (if i < 0 then ''-'' @ nat_str (nat (- i)) else nat_str (nat i))"

fun frac_digits :: "nat \<Rightarrow> real \<Rightarrow> string option" where
  "frac_digits 0 r = (if r = 0 then Some [] else None)"
| "frac_digits (Suc k) r =
     (if r = 0 then Some []
      else map_option ((#) (digit_char (nat \<lfloor>r * 10\<rfloor>)))
             (frac_digits k (r * 10 - of_int \<lfloor>r * 10\<rfloor>)))"

definition float_str :: "real \<Rightarrow> string option" where
  "float_str x =
     (let a = \<bar>x\<bar>; whole = nat_str (nat \<lfloor>a\<rfloor>) in
      if (a = 0 \<or> 1 / 10000 \<le> a) \<and> a < 10 ^ 15 then
        (case frac_digits (15 - length whole) (a - of_int \<lfloor>a\<rfloor>) of
           None \<Rightarrow> None
         | Some ds \<Rightarrow>
             Some ((if x < 0 then ''-'' else []) @ whole @ ''.'' @ (if ds = [] then ''0'' else ds)))
      else None)"

fun pynum_str :: "pynum \<Rightarrow> string option" where
  "pynum_str (PyInt i) = Some (int_str i)"
| "pynum_str (PyFloat x) = float_str x"

fun join :: "string \<Rightarrow> string list \<Rightarrow> string" where
  "join sep [] = []"
| "join sep [s] = s"
| "join sep (s # t # rest) = s @ sep @ join sep (t # rest)"

fun line_text :: "line \<Rightarrow> string option" where
  "line_text (Instr i) = Some (''Instr: '' @ int_str i)"
| "line_text (BPM x) = map_option ((@) ''BPM: '') (float_str x)"
| "line_text (Rest r) = map_option ((@) ''Rest: '') (pynum_str r)"
| "line_text (Note ns) = Some (''Note: '' @ join ''~'' (map int_str ns))"

fun message_text :: "message \<Rightarrow> string" where
  "message_text (ErrorReading e) = ''Error reading MIDI file: '' @ e"
| "message_text NoNoteEvents = ''No note events found in MIDI file!''"
| "message_text (Converted output_file n) =
     ''Successfully converted!'' @ [CHR 0x0A] @ ''Output: '' @ output_file @ [CHR 0x0A]
       @ ''Total lines: '' @ nat_str n"
| "message_text (ErrorWriting e) = ''Error writing output file: '' @ e"

subsection \<open>Notions used to state the properties\<close>

text \<open>
  The quantizer as the specification words it: an ordered list of pairs of an upper bound
  and a canonical value, evaluated in sequence, the first bound that the input falls under
  giving the value. The bounds are those of the code in ascending order; the test
  \<open>beat_value < 0.05\<close> that the code makes after \<open>beat_value < 0.0825\<close> has no entry.
\<close>

definition documented_ladder :: "(real \<times> pynum) list" where
  "documented_ladder =
     [(0.027, PyFloat 0.03125), (0.035, PyFloat 0.04), (0.045, PyFloat 0.05),
      (0.0615, PyFloat 0.0625), (0.0825, PyFloat 0.0833), (0.1, PyFloat 0.125),
      (0.15, PyFloat 0.166), (0.2, PyFloat 0.25), (0.3, PyFloat 0.33),
      (0.4, PyFloat 0.5), (0.6, PyFloat 0.75), (0.8, PyInt 1), (1.3, PyFloat 1.5),
      (2.5, PyInt 2), (3.5, PyInt 3), (4.5, PyInt 4), (6.5, PyInt 6), (7.5, PyInt 7),
      (8.5, PyInt 8), (10.5, PyInt 10), (11.5, PyInt 11), (12.5, PyInt 12),
      (14.5, PyInt 14), (15.5, PyInt 15), (16.5, PyInt 16)]"

fun ladder_lookup :: "(real \<times> pynum) list \<Rightarrow> real \<Rightarrow> pynum option" where
  "ladder_lookup [] x = None"
| "ladder_lookup ((upper_bound, canonical_value) # rest) x =
     (if x < upper_bound then Some canonical_value else ladder_lookup rest x)"

text \<open>
  A message that puts an entry into \<open>events\<close>: a \<open>note_off\<close>, or a \<open>note_on\<close> (with a
  positive velocity as a \<open>note_on\<close> event, with velocity 0 as a \<open>note_off\<close> event).
\<close>

fun is_note_msg :: "msg \<Rightarrow> bool" where
  "is_note_msg (NoteOnMsg _ _ velocity _) = (0 \<le> velocity)"
| "is_note_msg (NoteOffMsg _ _ _ _) = True"
| "is_note_msg (ProgramChangeMsg _ _ _) = False"
| "is_note_msg (SetTempoMsg _ _) = False"
| "is_note_msg (OtherMsg _) = False"

definition has_note_msg :: "midi_file \<Rightarrow> bool" where
  "has_note_msg mid = list_ex (list_ex is_note_msg) (tracks mid)"

text \<open>The \<open>note_on\<close> events of the decoded stream.\<close>

definition note_on_events :: "midi_file \<Rightarrow> event list" where
  "note_on_events mid = filter (\<lambda>e. is_note_on (snd e)) (sorted_events mid)"

text \<open>
  The invariant of the grouping loop: every chord time is marked as processed, no two
  chords have the same time, and every entry is a chord with at least one note.
\<close>

definition chords_ok :: "grouped_event list \<times> int set \<Rightarrow> bool" where
  "chords_ok acc \<longleftrightarrow>
     fst ` set (fst acc) \<subseteq> snd acc \<and> distinct (map fst (fst acc))
     \<and> list_all (\<lambda>e. is_chord (snd e) \<and> notes_of (snd e) \<noteq> []) (fst acc)"

section \<open>Properties\<close>

subsection \<open>Instrument mapper\<close>

lemma find_instrument_Some_iff:
  "find_instrument p m \<noteq> None \<longleftrightarrow> (\<exists>r \<in> set (map fst m). in_range p r)"
  by (induction m) auto

lemma gm_table_check:
  "list_all (\<lambda>p. find_instrument p instrument_map \<noteq> None \<and> 1 \<le> gm_to_scratch_instrument p
      \<and> gm_to_scratch_instrument p \<le> 21) [0..127]"
  by code_simp

lemma gm_in_range:
  assumes "0 \<le> p" "p \<le> 127"
  shows "find_instrument p instrument_map \<noteq> None \<and> 1 \<le> gm_to_scratch_instrument p
    \<and> gm_to_scratch_instrument p \<le> 21"
proof -
  from assms have "p \<in> set [0..127]" by simp
  with gm_table_check show ?thesis unfolding list_all_iff by blast
qed

lemma ranges_bounds_check:
  "list_all (\<lambda>r. 0 \<le> fst r \<and> snd r \<le> 128) (map fst instrument_map)"
  by code_simp

lemma ranges_apart_check:
  "list_all (\<lambda>r1. list_all (\<lambda>r2. r1 = r2 \<or> snd r1 \<le> fst r2 \<or> snd r2 \<le> fst r1)
     (map fst instrument_map)) (map fst instrument_map)"
  by code_simp

lemma ranges_disjoint:
  assumes "r1 \<in> set (map fst instrument_map)" "r2 \<in> set (map fst instrument_map)"
    and "in_range p r1" "in_range p r2"
  shows "r1 = r2"
proof -
  from ranges_apart_check assms(1,2) have "r1 = r2 \<or> snd r1 \<le> fst r2 \<or> snd r2 \<le> fst r1"
    unfolding list_all_iff by blast
  with assms(3,4) show ?thesis unfolding in_range_def by linarith
qed

lemma ranges_cover: "(\<Union>r \<in> set (map fst instrument_map). {p. in_range p r}) = {0..127}"
proof (intro equalityI subsetI)
  fix p assume "p \<in> (\<Union>r \<in> set (map fst instrument_map). {p. in_range p r})"
  then obtain r where r: "r \<in> set (map fst instrument_map)" "in_range p r" by blast
  with ranges_bounds_check have "0 \<le> fst r \<and> snd r \<le> 128"
    unfolding list_all_iff by blast
  with r(2) show "p \<in> {0..127}" unfolding in_range_def by simp
next
  fix p :: int assume "p \<in> {0..127}"
  then have "find_instrument p instrument_map \<noteq> None" using gm_in_range [of p] by simp
  then show "p \<in> (\<Union>r \<in> set (map fst instrument_map). {p. in_range p r})"
    unfolding find_instrument_Some_iff by blast
qed

lemma gm_out_of_range:
  assumes "p < 0 \<or> 127 < p"
  shows "find_instrument p instrument_map = None \<and> gm_to_scratch_instrument p = 1"
proof -
  have "\<not> (\<exists>r \<in> set (map fst instrument_map). in_range p r)"
  proof
    assume "\<exists>r \<in> set (map fst instrument_map). in_range p r"
    then have "p \<in> (\<Union>r \<in> set (map fst instrument_map). {p. in_range p r})" by blast
    with assms show False unfolding ranges_cover by auto
  qed
  then have "find_instrument p instrument_map = None"
    using find_instrument_Some_iff [of p instrument_map] by blast
  then show ?thesis by (simp add: gm_to_scratch_instrument_def)
qed

text \<open>
  Claim C4. For every program from 0 to 127 the mapper finds a range and returns a Scratch
  instrument from 1 to 21. The lookup table has 26 ranges, all different; a program lies in
  at most one of them, and together they contain exactly the programs 0 to 127. A program
  outside 0 to 127 lies in no range and is mapped to 1, the default.
\<close>

theorem instrument_mapping_total:
  "(\<forall>p. 0 \<le> p \<and> p \<le> 127 \<longrightarrow>
      find_instrument p instrument_map \<noteq> None
      \<and> 1 \<le> gm_to_scratch_instrument p \<and> gm_to_scratch_instrument p \<le> 21)
   \<and> length instrument_map = 26 \<and> distinct (map fst instrument_map)
   \<and> (\<forall>r1 r2 p. r1 \<in> set (map fst instrument_map) \<and> r2 \<in> set (map fst instrument_map)
         \<and> in_range p r1 \<and> in_range p r2 \<longrightarrow> r1 = r2)
   \<and> (\<Union>r \<in> set (map fst instrument_map). {p. in_range p r}) = {0..127}
   \<and> (\<forall>p. p < 0 \<or> 127 < p \<longrightarrow>
         find_instrument p instrument_map = None \<and> gm_to_scratch_instrument p = 1)"
proof -
  have "length instrument_map = 26 \<and> distinct (map fst instrument_map)"
    by code_simp
  then show ?thesis
    using gm_in_range ranges_disjoint ranges_cover gm_out_of_range by blast
qed

theorem instrument_mapping_total_witness:
  "(0::int) \<le> 60 \<and> (60::int) \<le> 127
   \<and> find_instrument 60 instrument_map \<noteq> None
   \<and> 1 \<le> gm_to_scratch_instrument 60 \<and> gm_to_scratch_instrument 60 \<le> 21
   \<and> (127::int) < 200 \<and> gm_to_scratch_instrument 200 = 1"
  using instrument_mapping_total [THEN conjunct1, rule_format, of 60]
    instrument_mapping_total [THEN conjunct2, THEN conjunct2, THEN conjunct2, THEN conjunct2,
      THEN conjunct2, rule_format, of 200]
  by simp

subsection \<open>Beat quantizer\<close>

lemma round_half_even_near: "\<bar>of_int (round_half_even y) - y\<bar> \<le> 1 / 2"
proof -
  have "of_int \<lfloor>y\<rfloor> \<le> y" "y < of_int \<lfloor>y\<rfloor> + 1" by linarith+
  then show ?thesis
    unfolding round_half_even_def Let_def by (simp add: abs_le_iff)
qed

lemma floor_log2_lower:
  assumes "1 \<le> a"
  shows "0 \<le> floor_log2 a \<and> 2 powi (floor_log2 a) \<le> a"
proof -
  from assms have pos: "0 < \<lfloor>a\<rfloor>" by linarith
  then have one: "1 \<le> bitlen \<lfloor>a\<rfloor>" by (auto simp: bitlen_alt_def)
  from bitlen_bounds [OF pos] have "2 ^ nat (bitlen \<lfloor>a\<rfloor> - 1) \<le> \<lfloor>a\<rfloor>" by simp
  then have "(2::real) ^ nat (bitlen \<lfloor>a\<rfloor> - 1) \<le> of_int \<lfloor>a\<rfloor>"
    by (metis of_int_le_iff of_int_numeral of_int_power)
  also have "\<dots> \<le> a" by linarith
  finally have "(2::real) ^ nat (bitlen \<lfloor>a\<rfloor> - 1) \<le> a" .
  with one assms show ?thesis
    unfolding floor_log2_def by (simp add: power_int_def)
qed

lemma to_double_near:
  assumes "1 \<le> x"
  shows "\<bar>to_double x - x\<bar> \<le> x / 2 ^ 53"
proof -
  define e where "e = floor_log2 x"
  define ulp :: real where "ulp = 2 powi (e - 52)"
  have ulp_pos: "0 < ulp" unfolding ulp_def by simp
  from floor_log2_lower [OF assms] have low: "2 powi e \<le> x" unfolding e_def by simp
  have ulp_e: "ulp * 2 ^ 52 = 2 powi e"
    unfolding ulp_def by (simp add: power_int_diff)
  from assms have td: "to_double x = of_int (round_half_even (x / ulp)) * ulp"
    unfolding to_double_def ulp_def e_def by (simp add: Let_def)
  have "\<bar>of_int (round_half_even (x / ulp)) - x / ulp\<bar> \<le> 1 / 2"
    by (rule round_half_even_near)
  then have "\<bar>of_int (round_half_even (x / ulp)) - x / ulp\<bar> * ulp \<le> 1 / 2 * ulp"
    using ulp_pos by (intro mult_right_mono) auto
  moreover have "\<bar>of_int (round_half_even (x / ulp)) - x / ulp\<bar> * ulp
      = \<bar>of_int (round_half_even (x / ulp)) * ulp - x\<bar>"
    using ulp_pos by (simp add: abs_mult_pos [symmetric] field_simps)
  ultimately have "\<bar>to_double x - x\<bar> \<le> ulp / 2" using td by simp
  moreover have "ulp / 2 \<le> x / 2 ^ 53"
    using low ulp_e by (simp add: field_simps)
  ultimately show ?thesis by linarith
qed

lemma py_round2_near: "\<bar>py_round2 x - to_double x\<bar> \<le> 1 / 200"
proof -
  have "\<bar>of_int (round_half_even (to_double x * 100)) - to_double x * 100\<bar> \<le> 1 / 2"
    by (rule round_half_even_near)
  then show ?thesis unfolding py_round2_def by (simp add: abs_le_iff field_simps)
qed

lemma py_round2_hundredths: "\<exists>k::int. py_round2 x = of_int k / 100"
  unfolding py_round2_def by blast

lemma py_round2_above_16:
  assumes "\<not> x < 16.5"
  shows "16 < py_round2 x"
proof -
  from assms have x: "1 \<le> x" "33 / 2 \<le> x" by simp_all
  have a: "\<bar>to_double x - x\<bar> \<le> x / 2 ^ 53" by (rule to_double_near [OF x(1)])
  have b: "\<bar>py_round2 x - to_double x\<bar> \<le> 1 / 200" by (rule py_round2_near)
  have "x / 2 ^ 53 \<le> x / 1000" using x by (simp add: field_simps)
  with a b x(2) show ?thesis by linarith
qed

lemma quantizer_ladder:
  "round_to_musical_beat x =
     (case ladder_lookup documented_ladder x of
        Some v \<Rightarrow> v
      | None \<Rightarrow> PyFloat (py_round2 x))"
  unfolding round_to_musical_beat_def documented_ladder_def by simp

lemma ladder_ascending: "sorted_wrt (<) (map fst documented_ladder)"
  unfolding documented_ladder_def by simp

lemma quantizer_documented_values:
  "round_to_musical_beat 0.79 = PyInt 1 \<and> round_to_musical_beat 0.8 = PyFloat 1.5
   \<and> round_to_musical_beat 0.81 = PyFloat 1.5"
  unfolding round_to_musical_beat_def by simp

lemma quantizer_beyond_last: "16.5 < x \<Longrightarrow> round_to_musical_beat x = PyFloat (py_round2 x)"
  unfolding round_to_musical_beat_def by simp

lemma quantizer_rounded_values:
  "round_to_musical_beat (7956 / 480) = PyFloat 16.57
   \<and> round_to_musical_beat (137 / 8) = PyFloat 17.12"
proof -
  have "py_round2 (7956 / 480) = 16.57" "py_round2 (137 / 8) = 17.12"
    by code_simp+
  then show ?thesis unfolding round_to_musical_beat_def by simp
qed

text \<open>
  Claim C6. The quantizer is the ladder of the documented bounds taken in ascending order:
  its result is the value of the first bound that the input is below. So 0.79 gives 1, and
  0.8 and 0.81 give 1.5. An input above 16.5 is below no bound and is returned rounded to
  two decimal places: the result is a whole number of hundredths, at most 0.005 away from
  the double of the input, which is the input up to a relative error of \<open>2 ^ -53\<close>. The
  quotient 7956 / 480 is 16.575, its double is below that, and it is returned as 16.57; the
  quotient 137 / 8 is the double 17.125, a tie, and is returned as 17.12.
\<close>

theorem quantizer_threshold_ladder:
  "round_to_musical_beat 0.79 = PyInt 1
   \<and> round_to_musical_beat 0.8 = PyFloat 1.5
   \<and> round_to_musical_beat 0.81 = PyFloat 1.5
   \<and> sorted_wrt (<) (map fst documented_ladder)
   \<and> (\<forall>x. round_to_musical_beat x =
         (case ladder_lookup documented_ladder x of
            Some v \<Rightarrow> v
          | None \<Rightarrow> PyFloat (py_round2 x)))
   \<and> (\<forall>x. 16.5 < x \<longrightarrow>
         round_to_musical_beat x = PyFloat (py_round2 x)
         \<and> (\<exists>k::int. py_round2 x = of_int k / 100)
         \<and> \<bar>py_round2 x - to_double x\<bar> \<le> 1 / 200
         \<and> \<bar>to_double x - x\<bar> \<le> x / 2 ^ 53)
   \<and> round_to_musical_beat (7956 / 480) = PyFloat 16.57
   \<and> round_to_musical_beat (137 / 8) = PyFloat 17.12"
proof -
  have "\<bar>to_double x - x\<bar> \<le> x / 2 ^ 53" if "16.5 < x" for x
    using that by (intro to_double_near) simp
  then show ?thesis
    using quantizer_documented_values ladder_ascending quantizer_ladder quantizer_beyond_last
      py_round2_near py_round2_hundredths quantizer_rounded_values
    by blast
qed

theorem quantizer_threshold_ladder_witness:
  "(16.5::real) < 20 \<and> round_to_musical_beat 20 = PyFloat 20"
proof -
  have "py_round2 20 = 20" by code_simp
  then show ?thesis
    using quantizer_threshold_ladder [THEN conjunct2, THEN conjunct2, THEN conjunct2,
        THEN conjunct2, THEN conjunct2, THEN conjunct1, rule_format, of 20]
    by simp
qed

text \<open>
  Claim C10. For a non-negative input the quantizer never returns 0.1. The branch that
  returns it asks for an input below 0.05 after the test for an input below 0.0825 has
  failed, which no input satisfies; an input below 0.05 is below 0.0825 and gets 0.0833 or
  a smaller canonical value.
\<close>

theorem dotted_32nd_unreachable:
  assumes "0 \<le> x"
  shows "round_to_musical_beat x \<noteq> PyFloat 0.1
    \<and> num_value (round_to_musical_beat x) \<noteq> 0.1
    \<and> \<not> (\<not> x < 0.0825 \<and> x < 0.05)
    \<and> (x < 0.05 \<longrightarrow> x < 0.0825 \<and> num_value (round_to_musical_beat x) \<le> 0.0833)"
proof (cases "x < 16.5")
  case True
  then show ?thesis unfolding round_to_musical_beat_def by simp
next
  case False
  then have "16 < py_round2 x" by (rule py_round2_above_16)
  with False show ?thesis unfolding round_to_musical_beat_def by simp
qed

theorem dotted_32nd_unreachable_witness:
  "(0::real) \<le> 0.04 \<and> round_to_musical_beat 0.04 \<noteq> PyFloat 0.1
   \<and> (0.04::real) < 0.05 \<and> num_value (round_to_musical_beat 0.04) \<le> 0.0833"
  using dotted_32nd_unreachable [of "0.04"] by simp

subsection \<open>Worked inputs\<close>

text \<open>
  Claim C3. A file of two tracks with 480 ticks per beat: a tempo of 500000 microseconds
  per beat at tick 0 in the first track; in the second a note-on of note 60 at tick 0 on
  program 0 and its note-off at tick 480. The conversion succeeds and writes exactly three
  lines, whose texts are \<open>Instr: 1\<close>, \<open>BPM: 120.0\<close> and \<open>Note: 60\<close>.
\<close>

theorem end_to_end_scenario:
  "midi_to_scratch
     (Inr \<lparr>ticks_per_beat = 480,
           tracks = [[SetTempoMsg 0 500000], [NoteOnMsg 0 60 100 0, NoteOffMsg 480 60 0 0]]\<rparr>)
     ''song_scratch.txt'' None
   = Inr \<lparr>success = True, message = Converted ''song_scratch.txt'' 3,
          written = Some [Instr 1, BPM 120, Note [60]]\<rparr>
   \<and> map line_text [Instr 1, BPM 120, Note [60]]
     = [Some ''Instr: 1'', Some ''BPM: 120.0'', Some ''Note: 60'']"
  by code_simp

text \<open>
  Claim C5. With 480 ticks per beat the tolerance is 15 ticks. Two note-ons at ticks 0 and
  15 form one chord, so the bound is inclusive; two note-ons at ticks 0 and 16 form two
  chords. This holds for any notes, velocities, channels and programs of the two events,
  and for the file that has them in one track.
\<close>

theorem chord_tolerance_inclusive:
  "tolerance 480 = 15
   \<and> group_chords 480 [(0, NoteOnData n1 v1 c1 p1), (15, NoteOnData n2 v2 c2 p2)]
     = [(0, Chord [n1, n2] p1)]
   \<and> group_chords 480 [(0, NoteOnData n1 v1 c1 p1), (16, NoteOnData n2 v2 c2 p2)]
     = [(0, Chord [n1] p1), (16, Chord [n2] p2)]
   \<and> chord_events
       \<lparr>ticks_per_beat = 480, tracks = [[NoteOnMsg 0 60 100 0, NoteOnMsg 15 64 100 0]]\<rparr>
     = [(0, Chord [60, 64] 0)]
   \<and> chord_events
       \<lparr>ticks_per_beat = 480, tracks = [[NoteOnMsg 0 60 100 0, NoteOnMsg 16 64 100 0]]\<rparr>
     = [(0, Chord [60] 0), (16, Chord [64] 0)]"
proof -
  have "chord_events
       \<lparr>ticks_per_beat = 480, tracks = [[NoteOnMsg 0 60 100 0, NoteOnMsg 15 64 100 0]]\<rparr>
     = [(0, Chord [60, 64] 0)]"
    by code_simp
  moreover have "chord_events
       \<lparr>ticks_per_beat = 480, tracks = [[NoteOnMsg 0 60 100 0, NoteOnMsg 16 64 100 0]]\<rparr>
     = [(0, Chord [60] 0), (16, Chord [64] 0)]"
    by code_simp
  ultimately show ?thesis
    unfolding group_chords_def tolerance_def by simp
qed

text \<open>
  Claim C9. Note-ons at ticks 0, 15 and 30 with a tolerance of 15 ticks give two chords, at
  times 0 and 30, and the note of the event at tick 15 is in both: the scan for the anchor
  at tick 30 goes over all events again and takes the event at tick 15, whose time was
  marked as processed by the first anchor.
\<close>

theorem note_in_two_chords:
  "group_chords 480
     [(0, NoteOnData a v1 c1 p1), (15, NoteOnData b v2 c2 p2), (30, NoteOnData c v3 c3 p3)]
     = [(0, Chord [a, b] p1), (30, Chord [b, c] p3)]
   \<and> sorted_events
       \<lparr>ticks_per_beat = 480,
        tracks = [[NoteOnMsg 0 60 100 0, NoteOnMsg 15 62 100 0, NoteOnMsg 15 64 100 0]]\<rparr>
     = [(0, NoteOnData 60 100 0 0), (15, NoteOnData 62 100 0 0), (30, NoteOnData 64 100 0 0)]
   \<and> chord_events
       \<lparr>ticks_per_beat = 480,
        tracks = [[NoteOnMsg 0 60 100 0, NoteOnMsg 15 62 100 0, NoteOnMsg 15 64 100 0]]\<rparr>
     = [(0, Chord [60, 62] 0), (30, Chord [62, 64] 0)]"
proof -
  have "sorted_events
       \<lparr>ticks_per_beat = 480,
        tracks = [[NoteOnMsg 0 60 100 0, NoteOnMsg 15 62 100 0, NoteOnMsg 15 64 100 0]]\<rparr>
     = [(0, NoteOnData 60 100 0 0), (15, NoteOnData 62 100 0 0), (30, NoteOnData 64 100 0 0)]"
    by code_simp
  moreover have "chord_events
       \<lparr>ticks_per_beat = 480,
        tracks = [[NoteOnMsg 0 60 100 0, NoteOnMsg 15 62 100 0, NoteOnMsg 15 64 100 0]]\<rparr>
     = [(0, Chord [60, 62] 0), (30, Chord [62, 64] 0)]"
    by code_simp
  ultimately show ?thesis
    unfolding group_chords_def tolerance_def by simp
qed

subsection \<open>The empty result\<close>

lemma process_msg_events:
  "events (snd (snd (process_msg (a, p, s) m))) = [] \<longleftrightarrow> events s = [] \<and> \<not> is_note_msg m"
  by (cases m) (auto simp: Let_def)

lemma foldl_process_msg_events:
  "events (snd (snd (foldl process_msg (a, p, s) ms))) = []
     \<longleftrightarrow> events s = [] \<and> \<not> list_ex is_note_msg ms"
proof (induction ms arbitrary: a p s)
  case Nil
  then show ?case by simp
next
  case (Cons m ms)
  obtain a' p' s' where step: "process_msg (a, p, s) m = (a', p', s')"
    by (cases "process_msg (a, p, s) m") auto
  have "events s' = [] \<longleftrightarrow> events s = [] \<and> \<not> is_note_msg m"
    using process_msg_events [of a p s m] step by simp
  with Cons.IH [of a' p' s'] step show ?case by auto
qed

lemma process_track_events:
  "events (process_track s track) = [] \<longleftrightarrow> events s = [] \<and> \<not> list_ex is_note_msg track"
  unfolding process_track_def by (rule foldl_process_msg_events)

lemma foldl_process_track_events:
  "events (foldl process_track s ts) = []
     \<longleftrightarrow> events s = [] \<and> \<not> list_ex (list_ex is_note_msg) ts"
  by (induction ts arbitrary: s) (auto simp: process_track_events)

lemma sorted_events_empty: "sorted_events mid = [] \<longleftrightarrow> \<not> has_note_msg mid"
proof -
  have "sorted_events mid = [] \<longleftrightarrow> events (extract_events mid) = []"
    unfolding sorted_events_def using length_sort [of fst "events (extract_events mid)"]
    by (metis length_0_conv)
  then show ?thesis
    unfolding extract_events_def has_note_msg_def by (simp add: foldl_process_track_events)
qed

text \<open>
  Claim C1, as the code has it. The conversion fails with the message
  \<open>No note events found in MIDI file!\<close>, writing no file, exactly when no track has a
  note message, that is neither a \<open>note_on\<close> nor a \<open>note_off\<close>: the test is on the list
  of all note events, in which a \<open>note_off\<close> counts. The text of that message differs
  from the texts of the failures to read and to write.
\<close>

theorem no_note_events_failure:
  "((midi_to_scratch (Inr mid) output_file write_error
      = Inr \<lparr>success = False, message = NoNoteEvents, written = None\<rparr>)
    \<longleftrightarrow> \<not> has_note_msg mid)
   \<and> message_text NoNoteEvents = ''No note events found in MIDI file!''
   \<and> message_text NoNoteEvents \<noteq> message_text (ErrorReading e)
   \<and> message_text NoNoteEvents \<noteq> message_text (ErrorWriting e)"
proof -
  have "(midi_to_scratch (Inr mid) output_file write_error
      = Inr \<lparr>success = False, message = NoNoteEvents, written = None\<rparr>)
    \<longleftrightarrow> \<not> has_note_msg mid"
    unfolding midi_to_scratch_def
    by (auto simp: sorted_events_empty split: sum.splits option.splits)
  then show ?thesis by simp
qed

theorem no_note_events_failure_witness:
  "midi_to_scratch (Inr \<lparr>ticks_per_beat = 480, tracks = [[SetTempoMsg 0 400000, OtherMsg 10]]\<rparr>)
      ''song_scratch.txt'' None
    = Inr \<lparr>success = False, message = NoNoteEvents, written = None\<rparr>"
  using no_note_events_failure
    [of "\<lparr>ticks_per_beat = 480, tracks = [[SetTempoMsg 0 400000, OtherMsg 10]]\<rparr>"
        "''song_scratch.txt''" None, THEN conjunct1]
  by (simp add: has_note_msg_def)

text \<open>
  A file whose only message is a \<open>note_off\<close> has no \<open>note_on\<close> event, and its conversion
  succeeds and writes the two initial lines.
\<close>

theorem note_off_only_counterexample:
  "note_on_events \<lparr>ticks_per_beat = 480, tracks = [[NoteOffMsg 0 60 0 0]]\<rparr> = []
   \<and> midi_to_scratch (Inr \<lparr>ticks_per_beat = 480, tracks = [[NoteOffMsg 0 60 0 0]]\<rparr>)
       ''song_scratch.txt'' None
     = Inr \<lparr>success = True, message = Converted ''song_scratch.txt'' 2,
            written = Some [Instr 1, BPM 120]\<rparr>"
  by code_simp

subsection \<open>Chord grouping\<close>

lemma scan_chord_processed_mono:
  "P \<subseteq> snd (scan_chord tol t evs (ns, P))"
proof (induction evs arbitrary: ns P)
  case Nil
  show ?case by simp
next
  case (Cons e evs)
  obtain t' d' where e: "e = (t', d')" by (cases e)
  show ?case
  proof (cases "is_note_on d' \<and> \<bar>of_int (t' - t)\<bar> \<le> tol")
    case True
    have "insert t' P \<subseteq> snd (scan_chord tol t evs (ns @ [ev_note d'], insert t' P))"
      by (rule Cons.IH)
    with True e show ?thesis by auto
  next
    case False
    with e Cons.IH [of P ns] show ?thesis by auto
  qed
qed

lemma scan_chord_notes_mono:
  "ns \<noteq> [] \<Longrightarrow> fst (scan_chord tol t evs (ns, P)) \<noteq> []"
  by (induction evs arbitrary: ns P) (auto split: if_splits)

lemma scan_chord_finds_anchor:
  assumes "0 \<le> tol" "(t, d) \<in> set evs" "is_note_on d"
  shows "fst (scan_chord tol t evs (ns, P)) \<noteq> [] \<and> t \<in> snd (scan_chord tol t evs (ns, P))"
  using assms
proof (induction evs arbitrary: ns P)
  case Nil
  then show ?case by simp
next
  case (Cons e evs)
  obtain t' d' where e: "e = (t', d')" by (cases e)
  show ?case
  proof (cases "(t, d) = e")
    case True
    with e Cons.prems have hit: "is_note_on d' \<and> \<bar>of_int (t' - t)\<bar> \<le> tol" by simp
    have "fst (scan_chord tol t evs (ns @ [ev_note d'], insert t' P)) \<noteq> []"
      by (rule scan_chord_notes_mono) simp
    moreover have "t \<in> snd (scan_chord tol t evs (ns @ [ev_note d'], insert t' P))"
      using scan_chord_processed_mono [of "insert t' P" tol t evs "ns @ [ev_note d']"] True e
      by auto
    ultimately show ?thesis using e hit by simp
  next
    case False
    with Cons.prems have "(t, d) \<in> set evs" by auto
    with Cons.IH Cons.prems(1,3) e show ?thesis by (auto split: if_splits)
  qed
qed

lemma group_loop_invariant:
  assumes "0 \<le> tol" "set rest \<subseteq> set all_events" "chords_ok (grouped, P)"
  shows "chords_ok (group_loop tol all_events rest (grouped, P))"
  using assms
proof (induction rest arbitrary: grouped P)
  case Nil
  then show ?case by simp
next
  case (Cons e rest)
  obtain t d where e: "e = (t, d)" by (cases e)
  from Cons.prems have sub: "set rest \<subseteq> set all_events" and mem: "(t, d) \<in> set all_events"
    using e by auto
  show ?case
  proof (cases d)
    case (NoteOffData n c)
    with e Cons.IH [OF Cons.prems(1) sub Cons.prems(3)] show ?thesis by simp
  next
    case (NoteOnData n v c p)
    show ?thesis
    proof (cases "t \<in> P")
      case True
      with e NoteOnData Cons.IH [OF Cons.prems(1) sub Cons.prems(3)] show ?thesis by simp
    next
      case False
      obtain ns P' where scan: "scan_chord tol t all_events ([], P) = (ns, P')"
        by (cases "scan_chord tol t all_events ([], P)")
      have found: "ns \<noteq> [] \<and> t \<in> P'"
        using scan_chord_finds_anchor [OF Cons.prems(1) mem, of "[]" P] NoteOnData scan by simp
      have mono: "P \<subseteq> P'"
        using scan_chord_processed_mono [of P tol t all_events "[]"] scan by simp
      have "chords_ok (grouped @ [(t, Chord ns p)], P')"
        using Cons.prems(3) found mono False unfolding chords_ok_def by auto
      from Cons.IH [OF Cons.prems(1) sub this] e NoteOnData False scan show ?thesis by simp
    qed
  qed
qed

lemma group_chords_ok:
  assumes "0 \<le> tpb"
  shows "distinct (map fst (group_chords tpb evs))
    \<and> list_all (\<lambda>e. is_chord (snd e) \<and> notes_of (snd e) \<noteq> []) (group_chords tpb evs)"
proof -
  from assms have "0 \<le> tolerance tpb" unfolding tolerance_def by simp
  moreover have "chords_ok ([], {})" unfolding chords_ok_def by simp
  ultimately have "chords_ok (group_loop (tolerance tpb) evs evs ([], {}))"
    by (intro group_loop_invariant) auto
  then show ?thesis unfolding group_chords_def chords_ok_def by simp
qed

text \<open>
  Claim C7, for a file whose \<open>ticks_per_beat\<close> is not negative. After chord grouping no
  two chord events have the same time, and every entry is a chord with a non-empty list of
  notes: the tolerance is then not negative, so the scan for an anchor finds the anchor
  itself and marks its time.
\<close>

theorem chord_events_invariant:
  assumes "0 \<le> ticks_per_beat mid"
  shows "distinct (map fst (chord_events mid))
    \<and> list_all (\<lambda>e. is_chord (snd e) \<and> notes_of (snd e) \<noteq> []) (chord_events mid)"
  unfolding chord_events_def using assms by (rule group_chords_ok)

theorem chord_events_invariant_witness:
  "0 \<le> ticks_per_beat
       \<lparr>ticks_per_beat = 480,
        tracks = [[NoteOnMsg 0 60 100 0, NoteOnMsg 15 62 100 0, NoteOnMsg 15 64 100 0]]\<rparr>
   \<and> distinct (map fst (chord_events
       \<lparr>ticks_per_beat = 480,
        tracks = [[NoteOnMsg 0 60 100 0, NoteOnMsg 15 62 100 0, NoteOnMsg 15 64 100 0]]\<rparr>))
   \<and> list_all (\<lambda>e. is_chord (snd e) \<and> notes_of (snd e) \<noteq> [])
       (chord_events
       \<lparr>ticks_per_beat = 480,
        tracks = [[NoteOnMsg 0 60 100 0, NoteOnMsg 15 62 100 0, NoteOnMsg 15 64 100 0]]\<rparr>)"
proof -
  have h: "0 \<le> ticks_per_beat
       \<lparr>ticks_per_beat = 480,
        tracks = [[NoteOnMsg 0 60 100 0, NoteOnMsg 15 62 100 0, NoteOnMsg 15 64 100 0]]\<rparr>"
    by simp
  from chord_events_invariant [OF h] h show ?thesis by blast
qed

text \<open>
  With a negative \<open>ticks_per_beat\<close> the tolerance is negative and the scan finds no event,
  not even the anchor: two note-ons at tick 0 give two chord events at time 0, both with an
  empty list of notes.
\<close>

theorem negative_resolution_counterexample:
  "chord_events
     \<lparr>ticks_per_beat = - 6360, tracks = [[NoteOnMsg 0 60 100 0, NoteOnMsg 0 64 100 0]]\<rparr>
     = [(0, Chord [] 0), (0, Chord [] 0)]"
  by code_simp

subsection \<open>Timeline serializer\<close>

lemma serialize_loop_append:
  "serialize_loop tpb st (xs @ ys) =
     (case serialize_loop tpb st xs of
        Inl err \<Rightarrow> Inl err
      | Inr (st1, l1) \<Rightarrow>
          (case serialize_loop tpb st1 ys of
             Inl err \<Rightarrow> Inl err
           | Inr (st2, l2) \<Rightarrow> Inr (st2, l1 @ l2)))"
  by (induction xs arbitrary: st) (auto split: sum.splits prod.splits)

lemma serialize_loop_untimed:
  "serialize_loop tpb st es =
     (case serialize_loop_timed tpb st es of
        Inl err \<Rightarrow> Inl err
      | Inr (st', tls) \<Rightarrow> Inr (st', map snd tls))"
  by (induction es arbitrary: st) (auto split: sum.splits prod.splits simp: comp_def)

lemma serialize_loop_timed_times:
  assumes "serialize_loop_timed tpb st es = Inr (st', tls)"
  shows "set (map fst tls) \<subseteq> set (map fst es)"
  using assms
proof (induction es arbitrary: st st' tls)
  case Nil
  then show ?case by simp
next
  case (Cons e es)
  from Cons.prems obtain st1 ls tls' where
    ev: "serialize_event tpb st e = Inr (st1, ls)"
    and rest: "serialize_loop_timed tpb st1 es = Inr (st', tls')"
    and tls: "tls = map (Pair (fst e)) ls @ tls'"
    by (auto split: sum.splits prod.splits)
  from Cons.IH [OF rest] tls show ?case by auto
qed

lemma serialize_loop_timed_sorted:
  assumes "sorted (map fst es)" "serialize_loop_timed tpb st es = Inr (st', tls)"
  shows "sorted (map fst tls)"
  using assms
proof (induction es arbitrary: st st' tls)
  case Nil
  then show ?case by simp
next
  case (Cons e es)
  from Cons.prems(2) obtain st1 ls tls' where
    ev: "serialize_event tpb st e = Inr (st1, ls)"
    and rest: "serialize_loop_timed tpb st1 es = Inr (st', tls')"
    and tls: "tls = map (Pair (fst e)) ls @ tls'"
    by (auto split: sum.splits prod.splits)
  from Cons.prems(1) have s: "sorted (map fst es)" and le: "\<forall>t \<in> set (map fst es). fst e \<le> t"
    by auto
  have "sorted (map fst tls')" by (rule Cons.IH [OF s rest])
  moreover have "\<forall>t \<in> set (map fst tls'). fst e \<le> t"
    using serialize_loop_timed_times [OF rest] le by blast
  moreover have "map fst (map (Pair (fst e)) ls) = replicate (length ls) (fst e)"
    by (induction ls) auto
  ultimately show ?case using tls by (auto simp: sorted_append)
qed

lemma merged_events_sorted: "sorted (map fst (merged_events mid))"
  unfolding merged_events_def by (rule sorted_sort_key)

lemma group_loop_chords:
  assumes "list_all (\<lambda>e. is_chord (snd e)) grouped"
  shows "list_all (\<lambda>e. is_chord (snd e)) (fst (group_loop tol all_events rest (grouped, P)))"
  using assms
proof (induction rest arbitrary: grouped P)
  case Nil
  then show ?case by simp
next
  case (Cons e rest)
  obtain t d where e: "e = (t, d)" by (cases e)
  show ?case
  proof (cases d)
    case (NoteOffData n c)
    with e Cons show ?thesis by simp
  next
    case (NoteOnData n v c p)
    obtain ns P' where scan: "scan_chord tol t all_events ([], P) = (ns, P')"
      by (cases "scan_chord tol t all_events ([], P)")
    have "list_all (\<lambda>e. is_chord (snd e)) (grouped @ [(t, Chord ns p)])"
      using Cons.prems by simp
    from Cons.IH [OF this] Cons.IH [OF Cons.prems] e NoteOnData scan show ?thesis by simp
  qed
qed

lemma chord_events_chords: "list_all (\<lambda>e. is_chord (snd e)) (chord_events mid)"
  unfolding chord_events_def group_chords_def by (rule group_loop_chords) simp

lemma tempo_events_tempos: "list_all (\<lambda>e. \<not> is_chord (snd e)) (tempo_events tc)"
  unfolding tempo_events_def by (induction tc) auto

lemma merged_events_at_time:
  "filter (\<lambda>e. fst e = t) (merged_events mid) =
     filter (\<lambda>e. fst e = t) (chord_events mid)
       @ filter (\<lambda>e. fst e = t) (tempo_events (tempo_changes (extract_events mid)))"
  unfolding merged_events_def by (simp add: sort_key_stable)

lemma split_after_boundary:
  assumes eq: "xs @ ys = as @ b # cs"
    and xs: "list_all P xs" and ys: "list_all (\<lambda>y. \<not> P y) ys" and b: "\<not> P b"
  shows "list_all (\<lambda>c. \<not> P c) cs"
proof -
  from eq obtain us where
    "(xs = as @ us \<and> us @ ys = b # cs) \<or> (xs @ us = as \<and> ys = us @ b # cs)"
    unfolding append_eq_append_conv2 by blast
  then show ?thesis
  proof
    assume c: "xs = as @ us \<and> us @ ys = b # cs"
    show ?thesis
    proof (cases us)
      case Nil
      with c ys show ?thesis by auto
    next
      case (Cons u us')
      with c have "b \<in> set xs" by auto
      with xs b show ?thesis unfolding list_all_iff by blast
    qed
  next
    assume "xs @ us = as \<and> ys = us @ b # cs"
    with ys show ?thesis by auto
  qed
qed

lemma no_chord_after_tempo:
  assumes "merged_events mid = pre @ (t, Tempo v) # post"
  shows "\<not> list_ex (\<lambda>e. fst e = t \<and> is_chord (snd e)) post"
proof -
  let ?at = "\<lambda>e::grouped_event. fst e = t"
  have "filter ?at (chord_events mid) @ filter ?at (tempo_events (tempo_changes (extract_events mid)))
      = filter ?at pre @ (t, Tempo v) # filter ?at post"
    using merged_events_at_time [of t mid] assms by simp
  moreover have "list_all (\<lambda>e. is_chord (snd e)) (filter ?at (chord_events mid))"
    using chord_events_chords [of mid] unfolding list_all_iff by auto
  moreover have "list_all (\<lambda>e. \<not> is_chord (snd e))
      (filter ?at (tempo_events (tempo_changes (extract_events mid))))"
    using tempo_events_tempos [of "tempo_changes (extract_events mid)"] unfolding list_all_iff by auto
  moreover have "\<not> is_chord (snd (t, Tempo v))" by simp
  ultimately have "list_all (\<lambda>e. \<not> is_chord (snd e)) (filter ?at post)"
    by (rule split_after_boundary)
  then show ?thesis unfolding list_all_iff list_ex_iff by auto
qed

lemma serialize_loop_notes:
  assumes "serialize_loop tpb st es = Inr (st', ls)" "(t, Chord ns p) \<in> set es"
  shows "Note (sort ns) \<in> set ls"
  using assms
proof (induction es arbitrary: st st' ls)
  case Nil
  then show ?case by simp
next
  case (Cons e es)
  from Cons.prems(1) obtain st1 l1 l2 where
    ev: "serialize_event tpb st e = Inr (st1, l1)"
    and rest: "serialize_loop tpb st1 es = Inr (st', l2)"
    and ls: "ls = l1 @ l2"
    by (auto split: sum.splits prod.splits)
  show ?case
  proof (cases "e = (t, Chord ns p)")
    case True
    with ev have "Note (sort ns) \<in> set l1"
      by (auto simp: Let_def split: if_splits)
    with ls show ?thesis by simp
  next
    case False
    with Cons.prems(2) have "(t, Chord ns p) \<in> set es" by simp
    from Cons.IH [OF rest this] ls show ?thesis by simp
  qed
qed

text \<open>
  A rest of 7956 ticks at 480 ticks per beat is 16.575 beats; the double of that quotient
  is below 16.575, and the line written is \<open>Rest: 16.57\<close>.
\<close>

lemma rest_rounding_example:
  "score_lines
     \<lparr>ticks_per_beat = 480, tracks = [[NoteOnMsg 0 60 100 0, NoteOnMsg 7956 64 100 0]]\<rparr>
   = Inr [Instr 1, BPM 120, Note [60], Rest (PyFloat 16.57), Note [64]]
   \<and> line_text (Rest (PyFloat 16.57)) = Some ''Rest: 16.57''"
  by code_simp

text \<open>
  Claim C2, as the code has it. The chords are put into \<open>grouped_events\<close> before the
  tempo changes and the sort is stable, so where a tempo change and a chord have the same
  time the chord comes first: no chord of that time follows the tempo change in the merged
  stream, every chord of that time is before it. The output is the two initial lines, then
  the lines \<open>l1\<close> of the events before the tempo change, among them the \<open>Note\<close> line of every
  chord of that time, then the \<open>BPM\<close> line of the tempo change, which is there exactly when
  its tempo differs from the current one, then the lines \<open>l3\<close> of the events after it. So
  the \<open>Note\<close> line of a chord comes before the \<open>BPM\<close> line of a tempo change of the same
  time.
\<close>

theorem chord_precedes_tempo:
  assumes merged: "merged_events mid = pre @ (t, Tempo v) # post"
    and lines: "score_lines mid = Inr ls"
  shows "\<not> list_ex (\<lambda>e. fst e = t \<and> is_chord (snd e)) post
    \<and> (\<exists>st1 l1 st2 lb st3 l3.
          serialize_loop (ticks_per_beat mid) (initial_state mid) pre = Inr (st1, l1)
        \<and> serialize_event (ticks_per_beat mid) st1 (t, Tempo v) = Inr (st2, lb)
        \<and> serialize_loop (ticks_per_beat mid) st2 post = Inr (st3, l3)
        \<and> lb = (if 60000000 / of_int v \<noteq> current_bpm st1
                  then [BPM (60000000 / of_int v)] else [])
        \<and> current_bpm st2 = 60000000 / of_int v
        \<and> (\<forall>ns p. (t, Chord ns p) \<in> set (merged_events mid) \<longrightarrow>
               (t, Chord ns p) \<in> set pre \<and> Note (sort ns) \<in> set l1)
        \<and> ls = [Instr (last_instrument (initial_state mid)), BPM (current_bpm (initial_state mid))]
                 @ l1 @ lb @ l3)"
proof -
  let ?tpb = "ticks_per_beat mid"
  from lines obtain st3 body where
    loop: "serialize_loop ?tpb (initial_state mid) (pre @ (t, Tempo v) # post) = Inr (st3, body)"
    and ls: "ls = [Instr (last_instrument (initial_state mid)), BPM (current_bpm (initial_state mid))] @ body"
    unfolding score_lines_def merged
    by (auto split: if_splits sum.splits prod.splits)
  from loop obtain st1 l1 rest where
    pre: "serialize_loop ?tpb (initial_state mid) pre = Inr (st1, l1)"
    and tail: "serialize_loop ?tpb st1 ((t, Tempo v) # post) = Inr (st3, rest)"
    and body: "body = l1 @ rest"
    unfolding serialize_loop_append by (auto split: sum.splits prod.splits)
  from tail obtain st2 lb l3 where
    ev: "serialize_event ?tpb st1 (t, Tempo v) = Inr (st2, lb)"
    and post: "serialize_loop ?tpb st2 post = Inr (st3, l3)"
    and rest: "rest = lb @ l3"
    by (auto split: sum.splits prod.splits)
  from ev have lb: "lb = (if 60000000 / of_int v \<noteq> current_bpm st1
                  then [BPM (60000000 / of_int v)] else [])"
    and bpm: "current_bpm st2 = 60000000 / of_int v"
    by (auto simp: Let_def split: if_splits)
  have none_after: "\<not> list_ex (\<lambda>e. fst e = t \<and> is_chord (snd e)) post"
    by (rule no_chord_after_tempo [OF merged])
  have chord_lines: "(t, Chord ns p) \<in> set pre \<and> Note (sort ns) \<in> set l1"
    if "(t, Chord ns p) \<in> set (merged_events mid)" for ns p
  proof -
    from none_after have "(t, Chord ns p) \<notin> set post"
      unfolding list_ex_iff by auto
    with that merged have "(t, Chord ns p) \<in> set pre" by auto
    with serialize_loop_notes [OF pre] show ?thesis by blast
  qed
  from pre ev post lb bpm ls body rest none_after chord_lines show ?thesis by blast
qed

theorem chord_precedes_tempo_witness:
  "merged_events
       \<lparr>ticks_per_beat = 480,
        tracks = [[SetTempoMsg 960 600000], [NoteOnMsg 0 60 100 0, NoteOnMsg 960 64 100 0]]\<rparr>
     = [(0, Chord [60] 0), (960, Chord [64] 0)] @ (960, Tempo 600000) # []
   \<and> score_lines
       \<lparr>ticks_per_beat = 480,
        tracks = [[SetTempoMsg 960 600000], [NoteOnMsg 0 60 100 0, NoteOnMsg 960 64 100 0]]\<rparr>
     = Inr [Instr 1, BPM 120, Note [60], Rest (PyInt 2), Note [64], BPM 100]
   \<and> (\<exists>(st1::ser_state) l1 lb l3.
         current_bpm st1 = 120
       \<and> lb = (if 60000000 / of_int 600000 \<noteq> current_bpm st1
                 then [BPM (60000000 / of_int 600000)] else [])
       \<and> Note (sort [64]) \<in> set l1
       \<and> [Instr 1, BPM 120, Note [60], Rest (PyInt 2), Note [64], BPM 100]
           = [Instr 1, BPM 120] @ l1 @ lb @ l3)"
proof -
  let ?mid = "\<lparr>ticks_per_beat = 480,
        tracks = [[SetTempoMsg 960 600000], [NoteOnMsg 0 60 100 0, NoteOnMsg 960 64 100 0]]\<rparr>"
  let ?pre = "[(0, Chord [60] 0), (960, Chord [64] 0)] :: grouped_event list"
  let ?ls = "[Instr 1, BPM 120, Note [60], Rest (PyInt 2), Note [64], BPM 100]"
  have merged: "merged_events ?mid = ?pre @ (960, Tempo 600000) # []"
    by code_simp
  have lines: "score_lines ?mid = Inr ?ls"
    by code_simp
  have init: "initial_state ?mid
     = \<lparr>previous_time = 0, current_bpm = 120, last_instrument = 1\<rparr>"
    by code_simp
  have pre: "serialize_loop 480 \<lparr>previous_time = 0, current_bpm = 120, last_instrument = 1\<rparr> ?pre
     = Inr (\<lparr>previous_time = 960, current_bpm = 120, last_instrument = 1\<rparr>,
            [Note [60], Rest (PyInt 2), Note [64]])"
    by code_simp
  from chord_precedes_tempo [OF merged lines] obtain st1 l1 st2 lb st3 l3 where
    c1: "serialize_loop (ticks_per_beat ?mid) (initial_state ?mid) ?pre = Inr (st1, l1)"
    and c2: "lb = (if 60000000 / of_int 600000 \<noteq> current_bpm st1
                 then [BPM (60000000 / of_int 600000)] else [])"
    and c3: "\<forall>ns p. (960, Chord ns p) \<in> set (merged_events ?mid) \<longrightarrow>
         (960, Chord ns p) \<in> set ?pre \<and> Note (sort ns) \<in> set l1"
    and c4: "?ls = [Instr (last_instrument (initial_state ?mid)),
                    BPM (current_bpm (initial_state ?mid))] @ l1 @ lb @ l3"
    by blast
  from c1 init pre have st1: "current_bpm st1 = 120" by simp
  have "(960, Chord [64] 0) \<in> set (merged_events ?mid)" unfolding merged by simp
  with c3 have in_l1: "Note (sort [64]) \<in> set l1" by blast
  from c4 init have fin: "?ls = [Instr 1, BPM 120] @ l1 @ lb @ l3" by simp
  have body: "current_bpm st1 = 120
       \<and> lb = (if 60000000 / of_int 600000 \<noteq> current_bpm st1
                 then [BPM (60000000 / of_int 600000)] else [])
       \<and> Note (sort [64]) \<in> set l1
       \<and> ?ls = [Instr 1, BPM 120] @ l1 @ lb @ l3"
    by (rule conjI [OF st1 conjI [OF c2 conjI [OF in_l1 fin]]])
  have ex: "\<exists>(st1::ser_state) l1 lb l3.
         current_bpm st1 = 120
       \<and> lb = (if 60000000 / of_int 600000 \<noteq> current_bpm st1
                 then [BPM (60000000 / of_int 600000)] else [])
       \<and> Note (sort [64]) \<in> set l1
       \<and> ?ls = [Instr 1, BPM 120] @ l1 @ lb @ l3"
    by (rule exI [of _ st1], rule exI [of _ l1], rule exI [of _ lb], rule exI [of _ l3])
      (rule body)
  show ?thesis by (rule conjI [OF merged conjI [OF lines ex]])
qed

text \<open>
  A tempo change and a chord at tick 480: the chord is first in the merged stream, and the
  \<open>Note\<close> line is written before the \<open>BPM\<close> line of the tempo change, with a \<open>Rest\<close>
  line before it.
\<close>

theorem tempo_after_chord_counterexample:
  "merged_events
       \<lparr>ticks_per_beat = 480,
        tracks = [[SetTempoMsg 480 600000], [NoteOnMsg 480 60 100 0]]\<rparr>
     = [(480, Chord [60] 0), (480, Tempo 600000)]
   \<and> score_lines
       \<lparr>ticks_per_beat = 480,
        tracks = [[SetTempoMsg 480 600000], [NoteOnMsg 480 60 100 0]]\<rparr>
     = Inr [Instr 1, BPM 120, Rest (PyFloat 1.5), Note [60], BPM 100]"
  by code_simp

text \<open>
  Claim C8. When the conversion succeeds, the file starts with an \<open>Instr\<close> line and a
  \<open>BPM\<close> line. The lines after them are those of the serializer; paired with the times of
  the events that they come from (events of the merged stream), they are in non-decreasing
  order of time.
\<close>

theorem output_ordering:
  assumes "midi_to_scratch (Inr mid) output_file write_error = Inr r" and "success r"
  shows "\<exists>i b rest timed.
     written r = Some (Instr i # BPM b # rest)
     \<and> score_lines_timed mid = Inr timed
     \<and> map snd timed = rest
     \<and> set (map fst timed) \<subseteq> set (map fst (merged_events mid))
     \<and> sorted (map fst timed)"
proof -
  from assms obtain ls where sc: "score_lines mid = Inr ls" and wr: "written r = Some ls"
    unfolding midi_to_scratch_def
    by (auto split: if_splits sum.splits option.splits)
  from sc obtain st tls where
    nz: "dict_get (tempo_changes (extract_events mid)) 0 500000 \<noteq> 0"
    and timed: "serialize_loop_timed (ticks_per_beat mid) (initial_state mid) (merged_events mid)
      = Inr (st, tls)"
    and ls: "ls = [Instr (last_instrument (initial_state mid)),
                   BPM (current_bpm (initial_state mid))] @ map snd tls"
    unfolding score_lines_def serialize_loop_untimed
    by (auto split: if_splits sum.splits prod.splits)
  have "sorted (map fst tls)"
    by (rule serialize_loop_timed_sorted [OF merged_events_sorted timed])
  moreover have "set (map fst tls) \<subseteq> set (map fst (merged_events mid))"
    by (rule serialize_loop_timed_times [OF timed])
  moreover have "score_lines_timed mid = Inr tls"
    unfolding score_lines_timed_def using nz timed by simp
  ultimately show ?thesis using wr ls by simp
qed

theorem output_ordering_witness:
  "midi_to_scratch
     (Inr \<lparr>ticks_per_beat = 480,
        tracks = [[SetTempoMsg 480 600000],
                  [NoteOnMsg 0 60 100 0, ProgramChangeMsg 240 40 0, NoteOnMsg 0 64 100 0]]\<rparr>)
     ''song_scratch.txt'' None
   = Inr \<lparr>success = True, message = Converted ''song_scratch.txt'' 7,
          written = Some [Instr 1, BPM 120, Note [60], Instr 8, Rest (PyFloat 0.75), Note [64],
                          BPM 100]\<rparr>
   \<and> score_lines_timed
       \<lparr>ticks_per_beat = 480,
        tracks = [[SetTempoMsg 480 600000],
                  [NoteOnMsg 0 60 100 0, ProgramChangeMsg 240 40 0, NoteOnMsg 0 64 100 0]]\<rparr>
     = Inr [(0, Note [60]), (240, Instr 8), (240, Rest (PyFloat 0.75)), (240, Note [64]),
            (480, BPM 100)]"
proof -
  have run: "midi_to_scratch
     (Inr \<lparr>ticks_per_beat = 480,
        tracks = [[SetTempoMsg 480 600000],
                  [NoteOnMsg 0 60 100 0, ProgramChangeMsg 240 40 0, NoteOnMsg 0 64 100 0]]\<rparr>)
     ''song_scratch.txt'' None
   = Inr \<lparr>success = True, message = Converted ''song_scratch.txt'' 7,
          written = Some [Instr 1, BPM 120, Note [60], Instr 8, Rest (PyFloat 0.75), Note [64],
                          BPM 100]\<rparr>"
    by code_simp
  have ok: "success \<lparr>success = True, message = Converted ''song_scratch.txt'' 7,
          written = Some [Instr 1, BPM 120, Note [60], Instr 8, Rest (PyFloat 0.75), Note [64],
                          BPM 100]\<rparr>"
    by simp
  have timed: "score_lines_timed
       \<lparr>ticks_per_beat = 480,
        tracks = [[SetTempoMsg 480 600000],
                  [NoteOnMsg 0 60 100 0, ProgramChangeMsg 240 40 0, NoteOnMsg 0 64 100 0]]\<rparr>
     = Inr [(0, Note [60]), (240, Instr 8), (240, Rest (PyFloat 0.75)), (240, Note [64]),
            (480, BPM 100)]"
    by code_simp
  from output_ordering [OF run ok] run timed show ?thesis by blast
qed

end
